theory Spec2Isabelle
  imports Complex_Main "HOL-Library.Word"
begin

section \<open>The moderation decision engine and its cache\<close>

text \<open>
  A shallow embedding of the moderation module (the OpenAI client module of the
  repository): the cache key, the cache, \<open>moderateContent\<close>, \<open>analyzeModeration\<close> and the
  feedback formatter, with the constants of \<open>MODERATION\<close> from \<open>constants.ts\<close>.

  Conventions of the embedding.
  \<^item> A JavaScript number is a \<open>real\<close>: scores are finite doubles, and the comparisons
    \<open>>\<close> and \<open>>=\<close> on finite doubles agree with the order of the reals they denote.
    \<open>NaN\<close> and the infinities are outside the model.
  \<^item> A property that may be \<open>undefined\<close> at run time has an \<open>option\<close> type, \<open>None\<close>
    being \<open>undefined\<close>.
  \<^item> The text under moderation is a list of UTF-16 code units, which is what
    \<open>content.length\<close> and \<open>content.charCodeAt(i)\<close> read. Category names and cache keys
    are ASCII and are of type \<open>string\<close>.
  \<^item> \<open>Date.now()\<close> is an \<open>int\<close> (milliseconds) passed in by the caller of each function
    that reads the clock.
  \<^item> The module-level \<open>moderationCache\<close> is passed in and returned.
\<close>

subsection \<open>Constants (\<open>MODERATION\<close> in \<open>constants.ts\<close>)\<close>

definition MODEL :: string where
  "MODEL = ''omni-moderation-latest''"

definition CONFIDENCE_THRESHOLD :: real where
  "CONFIDENCE_THRESHOLD = 0.1"

definition HIGH_SENSITIVITY_THRESHOLD :: real where
  "HIGH_SENSITIVITY_THRESHOLD = 0.05"

definition CACHE_TTL_HOURS :: int where
  "CACHE_TTL_HOURS = 1"

definition CATEGORIES :: "string list" where
  "CATEGORIES =
    [''hate'', ''hate/threatening'', ''harassment'', ''harassment/threatening'',
     ''self-harm'', ''self-harm/intent'', ''self-harm/instructions'',
     ''sexual'', ''sexual/minors'', ''violence'', ''violence/graphic'']"

definition HIGH_SENSITIVITY_CATEGORIES :: "string list" where
  "HIGH_SENSITIVITY_CATEGORIES =
    [''hate'', ''hate/threatening'', ''harassment'', ''harassment/threatening'']"

subsection \<open>Types (\<open>types.ts\<close>)\<close>

text \<open>
  The object type with one property per category, used by \<open>ModerationCategory\<close> at
  \<open>boolean\<close> for \<open>categories\<close> and at \<open>number\<close> for \<open>category_scores\<close>.
\<close>

record 'a by_category =
  hate :: 'a
  hate_threatening :: 'a
  harassment :: 'a
  harassment_threatening :: 'a
  self_harm :: 'a
  self_harm_intent :: 'a
  self_harm_instructions :: 'a
  sexual :: 'a
  sexual_minors :: 'a
  violence :: 'a
  violence_graphic :: 'a

record ModerationCategory =
  flagged :: "bool option"
  categories :: "bool option by_category"
  category_scores :: "real option by_category"

record ModerationResult =
  id' :: string
  model :: string
  results :: "ModerationCategory list"

text \<open>The return type of \<open>moderateContent\<close> and \<open>analyzeModeration\<close>.\<close>

record decision =
  isAllowed :: bool
  moderationResult :: ModerationResult
  flaggedCategories :: "string list"
  confidenceScore :: real

text \<open>
  \<open>Object.entries\<close> of such an object: its own properties in creation order, which for
  the objects built by \<open>moderateContent\<close> is the order of the object literal there.
\<close>

definition entries :: "'a by_category \<Rightarrow> (string \<times> 'a) list" where
  "entries obj =
    [(''hate'', hate obj),
     (''hate/threatening'', hate_threatening obj),
     (''harassment'', harassment obj),
     (''harassment/threatening'', harassment_threatening obj),
     (''self-harm'', self_harm obj),
     (''self-harm/intent'', self_harm_intent obj),
     (''self-harm/instructions'', self_harm_instructions obj),
     (''sexual'', sexual obj),
     (''sexual/minors'', sexual_minors obj),
     (''violence'', violence obj),
     (''violence/graphic'', violence_graphic obj)]"

text \<open>
  \<open>obj[key]\<close> for a key that \<open>Object.entries\<close> produced: the value of that own
  property. (\<open>analyzeModeration\<close> reads \<open>scores[category]\<close> only with such keys.)
\<close>

definition property :: "'a option by_category \<Rightarrow> string \<Rightarrow> 'a option" where
  "property obj key = (case map_of (entries obj) key of Some v \<Rightarrow> v | None \<Rightarrow> None)"

subsection \<open>\<open>analyzeModeration\<close>\<close>

text \<open>The choice of threshold inside the loop over the categories.\<close>

definition threshold :: "string \<Rightarrow> real" where
  "threshold category =
    (if category \<in> set HIGH_SENSITIVITY_CATEGORIES
     then HIGH_SENSITIVITY_THRESHOLD else CONFIDENCE_THRESHOLD)"

text \<open>
  The body of the inner loop, on the three variables of the function
  (\<open>flaggedCategories\<close>, written \<open>flaggedCats\<close> here, \<open>maxConfidence\<close> and
  \<open>hasViolation\<close>). With \<open>score\<close> undefined both
  \<open>score > maxConfidence\<close> and \<open>score >= threshold\<close> are false, and an undefined flag is
  falsy.
\<close>

fun check_category ::
  "real option by_category \<Rightarrow> string \<times> bool option \<Rightarrow>
   string list \<times> real \<times> bool \<Rightarrow> string list \<times> real \<times> bool" where
  "check_category scores (category, flag) (flaggedCats, maxConfidence, hasViolation) =
    (let score = property scores category;
         maxConfidence' =
           (case score of
              Some s \<Rightarrow> if s > maxConfidence then s else maxConfidence
            | None \<Rightarrow> maxConfidence)
     in if flag = Some True \<or> (case score of Some s \<Rightarrow> s \<ge> threshold category | None \<Rightarrow> False)
        then ((if category \<in> set flaggedCats then flaggedCats
               else flaggedCats @ [category]),
              maxConfidence', True)
        else (flaggedCats, maxConfidence', hasViolation))"

text \<open>The body of the outer loop, for one result of the classifier.\<close>

fun check_result ::
  "ModerationCategory \<Rightarrow> string list \<times> real \<times> bool \<Rightarrow> string list \<times> real \<times> bool" where
  "check_result result (flaggedCats, maxConfidence, hasViolation) =
    fold (check_category (category_scores result)) (entries (categories result))
      (flaggedCats, maxConfidence, hasViolation \<or> flagged result = Some True)"

definition analyzeModeration :: "ModerationResult \<Rightarrow> decision" where
  "analyzeModeration mr =
    (case fold check_result (results mr) ([], 0, False) of
       (flaggedCats, maxConfidence, hasViolation) \<Rightarrow>
         \<lparr>isAllowed = \<not> hasViolation,
          moderationResult = mr,
          flaggedCategories = flaggedCats,
          confidenceScore = maxConfidence\<rparr>)"

subsection \<open>The cache key\<close>

text \<open>
  \<open>getModerationCacheKey\<close>. The variable \<open>hash\<close> is a 32-bit integer after every round:
  \<open>hash << 5\<close> is a 32-bit shift, the subtraction and the addition of a code unit stay
  far below \<open>2^53\<close> in absolute value, so they are exact, and \<open>hash & hash\<close> reduces the
  sum to 32 bits again. On \<open>32 word\<close> this is \<open>push_bit 5 hash - hash + char\<close>; the
  number that \<open>toString(36)\<close> renders is the signed reading of the word.
\<close>

definition hash_round :: "32 word \<Rightarrow> 16 word \<Rightarrow> 32 word" where
  "hash_round hash char = (push_bit 5 hash - hash) + ucast char"

definition digit36 :: "nat \<Rightarrow> char" where
  "digit36 d = ''0123456789abcdefghijklmnopqrstuvwxyz'' ! d"

fun digits36 :: "nat \<Rightarrow> string" where
  "digits36 n = (if n < 36 then [digit36 n] else digits36 (n div 36) @ [digit36 (n mod 36)])"

declare digits36.simps [simp del]

text \<open>\<open>Number.prototype.toString(36)\<close> on an integer.\<close>

definition toString36 :: "int \<Rightarrow> string" where
  "toString36 i = (if i < 0 then CHR ''-'' # digits36 (nat (- i)) else digits36 (nat i))"

definition getModerationCacheKey :: "16 word list \<Rightarrow> string" where
  "getModerationCacheKey content =
    ''moderation_'' @ toString36 (sint (foldl hash_round 0 content))"

subsection \<open>The cache\<close>

record cache_entry =
  result :: ModerationResult
  timestamp :: int

type_synonym cache = "string \<rightharpoonup> cache_entry"

text \<open>\<open>isCacheValid\<close>, with the value of \<open>Date.now()\<close> as first argument.\<close>

definition isCacheValid :: "int \<Rightarrow> int \<Rightarrow> bool" where
  "isCacheValid now ts =
    (let cacheAgeMs = now - ts;
         maxAgeMs = CACHE_TTL_HOURS * 60 * 60 * 1000
     in cacheAgeMs < maxAgeMs)"

text \<open>
  \<open>getCachedModeration\<close>: the value returned (\<open>None\<close> for \<open>null\<close>) and the cache after
  the call.
\<close>

definition getCachedModeration ::
  "cache \<Rightarrow> int \<Rightarrow> 16 word list \<Rightarrow> ModerationResult option \<times> cache" where
  "getCachedModeration moderationCache now content =
    (let cacheKey = getModerationCacheKey content
     in case moderationCache cacheKey of
          Some cached \<Rightarrow>
            if isCacheValid now (timestamp cached)
            then (Some (result cached), moderationCache)
            else (None, moderationCache(cacheKey := None))
        | None \<Rightarrow> (None, moderationCache))"

definition cacheModeration ::
  "cache \<Rightarrow> int \<Rightarrow> 16 word list \<Rightarrow> ModerationResult \<Rightarrow> cache" where
  "cacheModeration moderationCache now content res =
    (let cacheKey = getModerationCacheKey content
     in moderationCache(cacheKey \<mapsto> \<lparr>result = res, timestamp = now\<rparr>))"

subsection \<open>\<open>moderateContent\<close>\<close>

text \<open>
  What \<open>openai.moderations.create\<close> resolves to, as the code reads it. The value comes
  from the network, so every part that the code dereferences may be missing:
  \<open>results\<close> may fail to be an array, an element of it may be \<open>null\<close>, its \<open>categories\<close>
  or \<open>category_scores\<close> may be missing, and either object may lack any property.
\<close>

record raw_result =
  raw_flagged :: "bool option"
  raw_categories :: "(string \<rightharpoonup> bool) option"
  raw_category_scores :: "(string \<rightharpoonup> real) option"

record response =
  response_id :: string
  response_model :: string
  response_results :: "raw_result option list option"

text \<open>
  What can be thrown inside the \<open>try\<close> block: the rejections of the client (no
  connection, timeout, an error status) and the \<open>TypeError\<close> of reading a property of
  \<open>undefined\<close> or \<open>null\<close>.
\<close>

datatype error = APIConnectionError | APIConnectionTimeoutError | APIError | TypeError

text \<open>The two object literals with one property per category.\<close>

definition pick :: "(string \<rightharpoonup> 'a) \<Rightarrow> 'a option by_category" where
  "pick obj =
    \<lparr>hate = obj ''hate'',
     hate_threatening = obj ''hate/threatening'',
     harassment = obj ''harassment'',
     harassment_threatening = obj ''harassment/threatening'',
     self_harm = obj ''self-harm'',
     self_harm_intent = obj ''self-harm/intent'',
     self_harm_instructions = obj ''self-harm/instructions'',
     sexual = obj ''sexual'',
     sexual_minors = obj ''sexual/minors'',
     violence = obj ''violence'',
     violence_graphic = obj ''violence/graphic''\<rparr>"

text \<open>The callback of \<open>response.results.map\<close>.\<close>

definition map_result :: "raw_result option \<Rightarrow> error + ModerationCategory" where
  "map_result r =
    (case r of
       None \<Rightarrow> Inl TypeError
     | Some r' \<Rightarrow>
         (case raw_categories r' of
            None \<Rightarrow> Inl TypeError
          | Some cs \<Rightarrow>
              (case raw_category_scores r' of
                 None \<Rightarrow> Inl TypeError
               | Some ss \<Rightarrow>
                   Inr \<lparr>flagged = raw_flagged r',
                        categories = pick cs,
                        category_scores = pick ss\<rparr>)))"

text \<open>\<open>Array.prototype.map\<close> with a callback that may throw.\<close>

fun map_results :: "raw_result option list \<Rightarrow> error + ModerationCategory list" where
  "map_results [] = Inr []"
| "map_results (r # rs) =
    (case map_result r of
       Inl e \<Rightarrow> Inl e
     | Inr c \<Rightarrow> (case map_results rs of Inl e \<Rightarrow> Inl e | Inr cs \<Rightarrow> Inr (c # cs)))"

text \<open>The construction of \<open>moderationResult\<close> from the response.\<close>

definition transform :: "response \<Rightarrow> error + ModerationResult" where
  "transform resp =
    (case response_results resp of
       None \<Rightarrow> Inl TypeError
     | Some rs \<Rightarrow>
         (case map_results rs of
            Inl e \<Rightarrow> Inl e
          | Inr cs \<Rightarrow>
              Inr \<lparr>id' = response_id resp, model = response_model resp, results = cs\<rparr>))"

text \<open>The value returned by the \<open>catch\<close> block.\<close>

definition fail_closed :: decision where
  "fail_closed =
    \<lparr>isAllowed = False,
     moderationResult = \<lparr>id' = ''error'', model = MODEL, results = []\<rparr>,
     flaggedCategories = [''error''],
     confidenceScore = 1.0\<rparr>"

text \<open>
  \<open>moderateContent\<close>. Arguments: the cache, the clock at the lookup, the clock at the
  store, the text, and the remote service \<open>create\<close>, a function of the input and the
  model that yields the response or the error the call is rejected with. Result: the
  decision the promise resolves to, the cache afterwards, and the number of calls of
  \<open>create\<close>. The whole body is inside \<open>try\<close>, so there is no error result.
\<close>

definition moderateContent ::
  "cache \<Rightarrow> int \<Rightarrow> int \<Rightarrow> 16 word list \<Rightarrow> (16 word list \<Rightarrow> string \<Rightarrow> error + response) \<Rightarrow>
   decision \<times> cache \<times> nat" where
  "moderateContent moderationCache now now' content create =
    (case getCachedModeration moderationCache now content of
       (Some cached, cache1) \<Rightarrow> (analyzeModeration cached, cache1, 0)
     | (None, cache1) \<Rightarrow>
         (case create content MODEL of
            Inl e \<Rightarrow> (fail_closed, cache1, 1)
          | Inr resp \<Rightarrow>
              (case transform resp of
                 Inl e \<Rightarrow> (fail_closed, cache1, 1)
               | Inr mr \<Rightarrow>
                   (analyzeModeration mr, cacheModeration cache1 now' content mr, 1))))"

subsection \<open>The feedback formatter\<close>

text \<open>
  \<open>displayNames\<close> is an object literal, so \<open>displayNames[category]\<close> finds the eleven own
  properties and, for any other key, what the object inherits from \<open>Object.prototype\<close>:
  for twelve keys a function or an object, for every other key \<open>undefined\<close>. The values
  that the lookup can produce are therefore strings, functions (described by their
  name) and the prototype object itself.
\<close>

datatype js_value = JString string | JFunction string | JObject

definition displayNames :: "(string \<times> string) list" where
  "displayNames =
    [(''hate'', ''Hate Speech''),
     (''hate/threatening'', ''Threatening Hate Speech''),
     (''harassment'', ''Harassment''),
     (''harassment/threatening'', ''Threatening Harassment''),
     (''self-harm'', ''Self-Harm''),
     (''self-harm/intent'', ''Self-Harm Intent''),
     (''self-harm/instructions'', ''Self-Harm Instructions''),
     (''sexual'', ''Sexual Content''),
     (''sexual/minors'', ''Sexual Content Involving Minors''),
     (''violence'', ''Violence''),
     (''violence/graphic'', ''Graphic Violence'')]"

text \<open>The properties of \<open>Object.prototype\<close> (the language's, as in Node.js).\<close>

definition Object_prototype :: "(string \<times> js_value) list" where
  "Object_prototype =
    [(''constructor'', JFunction ''Object''),
     (''__defineGetter__'', JFunction ''__defineGetter__''),
     (''__defineSetter__'', JFunction ''__defineSetter__''),
     (''hasOwnProperty'', JFunction ''hasOwnProperty''),
     (''__lookupGetter__'', JFunction ''__lookupGetter__''),
     (''__lookupSetter__'', JFunction ''__lookupSetter__''),
     (''isPrototypeOf'', JFunction ''isPrototypeOf''),
     (''propertyIsEnumerable'', JFunction ''propertyIsEnumerable''),
     (''toString'', JFunction ''toString''),
     (''valueOf'', JFunction ''valueOf''),
     (''__proto__'', JObject),
     (''toLocaleString'', JFunction ''toLocaleString'')]"

text \<open>Truthiness of such a value, for the left operand of \<open>||\<close>.\<close>

fun truthy :: "js_value \<Rightarrow> bool" where
  "truthy (JString s) = (s \<noteq> [])"
| "truthy (JFunction f) = True"
| "truthy JObject = True"

definition getCategoryDisplayName :: "string \<Rightarrow> js_value" where
  "getCategoryDisplayName category =
    (let v = (case map_of displayNames category of
                Some name \<Rightarrow> Some (JString name)
              | None \<Rightarrow> map_of Object_prototype category)
     in case v of
          Some x \<Rightarrow> if truthy x then x else JString category
        | None \<Rightarrow> JString category)"

text \<open>
  The conversion to a string that \<open>join\<close> applies to each element: a string is itself,
  a built-in function prints as native code, a plain object as \<open>[object Object]\<close>.
\<close>

fun ToString :: "js_value \<Rightarrow> string" where
  "ToString (JString s) = s"
| "ToString (JFunction f) = ''function '' @ f @ ''() { [native code] }''"
| "ToString JObject = ''[object Object]''"

fun join :: "string \<Rightarrow> js_value list \<Rightarrow> string" where
  "join sep [] = []"
| "join sep [x] = ToString x"
| "join sep (x # y # ys) = ToString x @ sep @ join sep (y # ys)"

definition formatModerationFeedback :: "string list \<Rightarrow> bool \<Rightarrow> string" where
  "formatModerationFeedback flaggedCats allowed =
    (if allowed then ''Content passed moderation checks.''
     else if length flaggedCats = 0 then ''Content flagged by moderation system.''
     else (let categoryNames = join '', '' (map getCategoryDisplayName flaggedCats)
           in ''Content flagged for: '' @ categoryNames @ ''. Please revise your post.''))"

section \<open>Specification-side notions\<close>

text \<open>
  The notions in which the properties below are stated. None of them is used by the
  definitions above.
\<close>

text \<open>Adding a name to an ordered set: the name goes to the end unless it is there.\<close>

definition push_new :: "string \<Rightarrow> string list \<Rightarrow> string list" where
  "push_new c cs = (if c \<in> set cs then cs else cs @ [c])"

text \<open>The names of a list in the order of their first occurrences, each once.\<close>

definition first_seen :: "string list \<Rightarrow> string list" where
  "first_seen cs = rev (remdups (rev cs))"

text \<open>
  A category is a violation for a unit when its flag is true or its score reaches the
  threshold of its class; a missing flag or score contributes nothing.
\<close>

definition violates :: "ModerationCategory \<Rightarrow> string \<Rightarrow> bool" where
  "violates u c =
    (property (categories u) c = Some True \<or>
     (case property (category_scores u) c of Some s \<Rightarrow> threshold c \<le> s | None \<Rightarrow> False))"

definition unit_violations :: "ModerationCategory \<Rightarrow> string list" where
  "unit_violations u = filter (violates u) CATEGORIES"

primrec somes :: "'a option list \<Rightarrow> 'a list" where
  "somes [] = []"
| "somes (x # xs) = (case x of Some v \<Rightarrow> v # somes xs | None \<Rightarrow> somes xs)"

text \<open>The scores a unit carries, and the scores of all units of a result.\<close>

definition unit_scores :: "ModerationCategory \<Rightarrow> real list" where
  "unit_scores u = somes (map (property (category_scores u)) CATEGORIES)"

definition all_scores :: "ModerationResult \<Rightarrow> real list" where
  "all_scores r = concat (map unit_scores (results r))"

text \<open>
  A well-formed result: every unit carries a flag and a score for each of the eleven
  categories.
\<close>

definition well_formed_unit :: "ModerationCategory \<Rightarrow> bool" where
  "well_formed_unit u =
    (list_all (\<lambda>c. \<not> Option.is_none (property (categories u) c)) CATEGORIES \<and>
     list_all (\<lambda>c. \<not> Option.is_none (property (category_scores u) c)) CATEGORIES)"

definition well_formed :: "ModerationResult \<Rightarrow> bool" where
  "well_formed r = list_all well_formed_unit (results r)"

subsection \<open>Sample inputs\<close>

definition all_categories :: "'a \<Rightarrow> 'a by_category" where
  "all_categories v =
    \<lparr>hate = v, hate_threatening = v, harassment = v, harassment_threatening = v,
     self_harm = v, self_harm_intent = v, self_harm_instructions = v,
     sexual = v, sexual_minors = v, violence = v, violence_graphic = v\<rparr>"

text \<open>A unit that the classifier flags as a whole, with no category flagged.\<close>

definition flagged_without_category :: ModerationResult where
  "flagged_without_category =
    \<lparr>id' = ''modr-1'', model = MODEL,
     results = [\<lparr>flagged = Some True,
                 categories = all_categories (Some False),
                 category_scores = all_categories (Some 0)\<rparr>]\<rparr>"

text \<open>
  A unit with \<open>hate\<close> exactly at its threshold and \<open>violence\<close>, the highest score,
  below its own.
\<close>

definition boundary_scores :: ModerationResult where
  "boundary_scores =
    \<lparr>id' = ''modr-2'', model = MODEL,
     results = [\<lparr>flagged = Some False,
                 categories = all_categories (Some False),
                 category_scores = (all_categories (Some 0.001))
                   \<lparr>hate := Some 0.05, violence := Some 0.09\<rparr>\<rparr>]\<rparr>"

text \<open>A text whose key collides with that of the next one (\<open>Aa\<close> and \<open>BB\<close>).\<close>

definition text_Aa :: "16 word list" where
  "text_Aa = [65, 97]"

definition text_BB :: "16 word list" where
  "text_BB = [66, 66]"

text \<open>A cache whose only entry, stored at time \<open>0\<close> for \<open>text_Aa\<close>, expires at one hour.\<close>

definition expired_cache :: cache where
  "expired_cache =
    [getModerationCacheKey text_Aa \<mapsto> \<lparr>result = boundary_scores, timestamp = 0\<rparr>]"

text \<open>A remote service that times out.\<close>

definition timeout_service :: "16 word list \<Rightarrow> string \<Rightarrow> error + response" where
  "timeout_service input mdl = Inl APIConnectionTimeoutError"

text \<open>A complete response for a harmless text, the service returning it, and its result.\<close>

definition clean_response :: response where
  "clean_response =
    \<lparr>response_id = ''modr-3'', response_model = MODEL,
     response_results =
       Some [Some \<lparr>raw_flagged = Some False,
                   raw_categories = Some (map_of (map (\<lambda>c. (c, False)) CATEGORIES)),
                   raw_category_scores = Some (map_of (map (\<lambda>c. (c, 0.001)) CATEGORIES))\<rparr>]\<rparr>"

definition clean_service :: "16 word list \<Rightarrow> string \<Rightarrow> error + response" where
  "clean_service input mdl = Inr clean_response"

definition clean_result :: ModerationResult where
  "clean_result =
    \<lparr>id' = ''modr-3'', model = MODEL,
     results = [\<lparr>flagged = Some False,
                 categories = all_categories (Some False),
                 category_scores = all_categories (Some 0.001)\<rparr>]\<rparr>"

text \<open>
  A response whose only unit lacks its own flag and carries the flag and the score of
  one category out of eleven; the service returning it, and its result.
\<close>

definition partial_response :: response where
  "partial_response =
    \<lparr>response_id = ''modr-4'', response_model = MODEL,
     response_results =
       Some [Some \<lparr>raw_flagged = None,
                   raw_categories = Some [''violence'' \<mapsto> False],
                   raw_category_scores = Some [''violence'' \<mapsto> 0.01]\<rparr>]\<rparr>"

definition partial_service :: "16 word list \<Rightarrow> string \<Rightarrow> error + response" where
  "partial_service input mdl = Inr partial_response"

definition partial_result :: ModerationResult where
  "partial_result =
    \<lparr>id' = ''modr-4'', model = MODEL,
     results = [\<lparr>flagged = None,
                 categories = (all_categories None)\<lparr>violence := Some False\<rparr>,
                 category_scores = (all_categories None)\<lparr>violence := Some 0.01\<rparr>\<rparr>]\<rparr>"

text \<open>A response without \<open>results\<close>, and the service returning it.\<close>

definition unreadable_response :: response where
  "unreadable_response =
    \<lparr>response_id = ''modr-5'', response_model = MODEL, response_results = None\<rparr>"

definition unreadable_service :: "16 word list \<Rightarrow> string \<Rightarrow> error + response" where
  "unreadable_service input mdl = Inr unreadable_response"

subsection \<open>Notions about \<open>moderateContent\<close> and the formatter\<close>

text \<open>
  Classification fails outright: the call of the remote service is rejected, or an
  exception is raised while its response is processed.
\<close>

definition classification_fails ::
  "(16 word list \<Rightarrow> string \<Rightarrow> error + response) \<Rightarrow> 16 word list \<Rightarrow> bool" where
  "classification_fails create content =
    (case create content MODEL of Inl e \<Rightarrow> True | Inr resp \<Rightarrow> isl (transform resp))"

text \<open>
  The minimal shape of a response: \<open>results\<close> is an array, and each unit has its flag,
  and a flag and a score for each of the eleven categories.
\<close>

definition well_shaped_result :: "raw_result option \<Rightarrow> bool" where
  "well_shaped_result r =
    (case r of
       None \<Rightarrow> False
     | Some r' \<Rightarrow>
         \<not> Option.is_none (raw_flagged r') \<and>
         (case raw_categories r' of
            None \<Rightarrow> False
          | Some cs \<Rightarrow> list_all (\<lambda>c. \<not> Option.is_none (cs c)) CATEGORIES) \<and>
         (case raw_category_scores r' of
            None \<Rightarrow> False
          | Some ss \<Rightarrow> list_all (\<lambda>c. \<not> Option.is_none (ss c)) CATEGORIES))"

definition well_shaped :: "response \<Rightarrow> bool" where
  "well_shaped resp =
    (case response_results resp of None \<Rightarrow> False | Some rs \<Rightarrow> list_all well_shaped_result rs)"

text \<open>
  The weaker shape that the code depends on: \<open>results\<close> is an array, and each unit is an
  object with a \<open>categories\<close> and a \<open>category_scores\<close> object.
\<close>

definition readable_result :: "raw_result option \<Rightarrow> bool" where
  "readable_result r =
    (case r of
       None \<Rightarrow> False
     | Some r' \<Rightarrow>
         \<not> Option.is_none (raw_categories r') \<and> \<not> Option.is_none (raw_category_scores r'))"

definition readable :: "response \<Rightarrow> bool" where
  "readable resp =
    (case response_results resp of None \<Rightarrow> False | Some rs \<Rightarrow> list_all readable_result rs)"

text \<open>
  What a unit of a response says about a category and about itself, a missing flag
  counting as false and a missing score as below the threshold.
\<close>

definition raw_violation :: "raw_result option \<Rightarrow> string \<Rightarrow> bool" where
  "raw_violation r c =
    (case r of
       None \<Rightarrow> False
     | Some r' \<Rightarrow>
         (case raw_categories r' of Some cs \<Rightarrow> cs c = Some True | None \<Rightarrow> False) \<or>
         (case raw_category_scores r' of
            Some ss \<Rightarrow> (case ss c of Some s \<Rightarrow> threshold c \<le> s | None \<Rightarrow> False)
          | None \<Rightarrow> False))"

definition raw_unit_flagged :: "raw_result option \<Rightarrow> bool" where
  "raw_unit_flagged r = (case r of None \<Rightarrow> False | Some r' \<Rightarrow> raw_flagged r' = Some True)"

text \<open>
  The display name of a category as a static table with a default: the name of a known
  category, and every other string unchanged.
\<close>

definition display_name :: "string \<Rightarrow> string" where
  "display_name c = (case map_of displayNames c of Some name \<Rightarrow> name | None \<Rightarrow> c)"

fun comma_joined :: "string list \<Rightarrow> string" where
  "comma_joined [] = []"
| "comma_joined [x] = x"
| "comma_joined (x # y # ys) = x @ '', '' @ comma_joined (y # ys)"

section \<open>Properties\<close>

subsection \<open>Auxiliary facts about \<open>analyzeModeration\<close>\<close>

lemmas eval_defs = analyzeModeration_def entries_def property_def threshold_def
  HIGH_SENSITIVITY_CATEGORIES_def HIGH_SENSITIVITY_THRESHOLD_def CONFIDENCE_THRESHOLD_def
  all_categories_def CATEGORIES_def well_formed_def well_formed_unit_def

lemma entries_property: "entries obj = map (\<lambda>c. (c, property obj c)) CATEGORIES"
  by (simp add: entries_def CATEGORIES_def property_def)

lemma thresholds:
  "map threshold CATEGORIES = [0.05, 0.05, 0.05, 0.05, 0.1, 0.1, 0.1, 0.1, 0.1, 0.1, 0.1]"
  by (simp add: eval_defs)

lemma set_first_seen: "set (first_seen cs) = set cs"
  by (simp add: first_seen_def)

lemma distinct_first_seen: "distinct (first_seen cs)"
  by (simp add: first_seen_def)

lemma fold_push_new_first_seen: "fold push_new cs [] = first_seen cs"
proof (induction cs rule: rev_induct)
  case Nil
  show ?case by (simp add: first_seen_def)
next
  case (snoc c cs)
  have "set (first_seen cs) = set cs" by (simp add: first_seen_def)
  with snoc show ?case by (simp add: first_seen_def push_new_def)
qed

text \<open>The inner loop, one variable at a time.\<close>

lemma check_category_fold:
  "fold (check_category scores) (map (\<lambda>c. (c, flags c)) cs) (fc, mc, hv) =
    (fold push_new
       (filter (\<lambda>c. flags c = Some True \<or>
          (case property scores c of Some s \<Rightarrow> threshold c \<le> s | None \<Rightarrow> False)) cs) fc,
     fold max (somes (map (property scores) cs)) mc,
     hv \<or> (\<exists>c \<in> set cs. flags c = Some True \<or>
          (case property scores c of Some s \<Rightarrow> threshold c \<le> s | None \<Rightarrow> False)))"
proof (induction cs arbitrary: fc mc hv)
  case Nil
  show ?case by simp
next
  case (Cons c cs)
  show ?case
    by (cases "property scores c") (auto simp: Cons.IH push_new_def max_def Let_def)
qed

lemma check_result_eq:
  "check_result u (fc, mc, hv) =
    (fold push_new (unit_violations u) fc,
     fold max (unit_scores u) mc,
     hv \<or> flagged u = Some True \<or> unit_violations u \<noteq> [])"
proof -
  have v: "violates u = (\<lambda>c. property (categories u) c = Some True \<or>
      (case property (category_scores u) c of Some s \<Rightarrow> threshold c \<le> s | None \<Rightarrow> False))"
    by (simp add: violates_def fun_eq_iff)
  show ?thesis
    unfolding check_result.simps entries_property [of "categories u"] check_category_fold
      unit_violations_def unit_scores_def v
    by (auto simp: filter_empty_conv)
qed

text \<open>The outer loop.\<close>

lemma check_result_fold:
  "fold check_result us (fc, mc, hv) =
    (fold push_new (concat (map unit_violations us)) fc,
     fold max (concat (map unit_scores us)) mc,
     hv \<or> (\<exists>u \<in> set us. flagged u = Some True \<or> unit_violations u \<noteq> []))"
proof (induction us arbitrary: fc mc hv)
  case Nil
  show ?case by simp
next
  case (Cons u us)
  show ?case by (simp add: check_result_eq Cons.IH del: check_result.simps)
qed

lemma analyzeModeration_eq:
  "analyzeModeration r =
    \<lparr>isAllowed = \<not> (\<exists>u \<in> set (results r). flagged u = Some True \<or> unit_violations u \<noteq> []),
     moderationResult = r,
     flaggedCategories = first_seen (concat (map unit_violations (results r))),
     confidenceScore = fold max (all_scores r) 0\<rparr>"
  by (simp add: analyzeModeration_def check_result_fold fold_push_new_first_seen all_scores_def)

lemma well_formed_property:
  assumes "well_formed r" and "u \<in> set (results r)" and "c \<in> set CATEGORIES"
  shows "\<exists>flag score. property (categories u) c = Some flag \<and>
           property (category_scores u) c = Some score"
  using assms by (auto simp: well_formed_def well_formed_unit_def list_all_iff Option.is_none_def)

lemma fold_max_Max: "fold max (xs :: real list) m = Max (insert m (set xs))"
proof (induction xs arbitrary: m)
  case Nil
  show ?case by simp
next
  case (Cons x xs)
  have "Max (insert (max x m) (set xs)) = Max (insert m (insert x (set xs)))"
    by (cases "set xs = {}") (simp_all add: max.commute max.left_commute max.assoc)
  then show ?case by (simp add: Cons.IH)
qed

text \<open>The score returned is the largest of \<open>0\<close> and the scores present.\<close>

lemma confidenceScore_eq:
  "confidenceScore (analyzeModeration r) = Max (insert 0 (set (all_scores r)))"
  by (simp add: analyzeModeration_eq fold_max_Max)

lemma well_formed_unit_scores:
  assumes "well_formed_unit u"
  shows "unit_scores u \<noteq> []"
  using assms
  by (auto simp: well_formed_unit_def unit_scores_def CATEGORIES_def Option.is_none_def)

lemma boundary_scores_well_formed: "well_formed boundary_scores"
  by (simp add: boundary_scores_def eval_defs)

lemma boundary_scores_decision:
  "analyzeModeration boundary_scores =
    \<lparr>isAllowed = False, moderationResult = boundary_scores,
     flaggedCategories = [''hate''], confidenceScore = 0.09\<rparr>"
  by (simp add: boundary_scores_def eval_defs)

lemma flaggedCategories_subset:
  "set (flaggedCategories (analyzeModeration r)) \<subseteq> set CATEGORIES"
  by (auto simp: analyzeModeration_eq set_first_seen unit_violations_def)

text \<open>No result is analysed into the decision of the \<open>catch\<close> block.\<close>

lemma analyzeModeration_not_fail_closed: "analyzeModeration r \<noteq> fail_closed"
proof
  assume "analyzeModeration r = fail_closed"
  then have "''error'' \<in> set (flaggedCategories (analyzeModeration r))"
    by (simp add: fail_closed_def)
  with flaggedCategories_subset [of r] have "''error'' \<in> set CATEGORIES" by blast
  then show False by (simp add: CATEGORIES_def)
qed

lemma flagged_iff_violates:
  "c \<in> set (flaggedCategories (analyzeModeration mr)) \<longleftrightarrow>
     c \<in> set CATEGORIES \<and> (\<exists>u \<in> set (results mr). violates u c)"
  by (auto simp: analyzeModeration_eq set_first_seen unit_violations_def)

lemma allowed_iff_violates:
  "isAllowed (analyzeModeration mr) \<longleftrightarrow>
     \<not> (\<exists>u \<in> set (results mr). flagged u = Some True) \<and>
     \<not> (\<exists>c \<in> set CATEGORIES. \<exists>u \<in> set (results mr). violates u c)"
  by (auto simp: analyzeModeration_eq unit_violations_def filter_empty_conv)

subsection \<open>Auxiliary facts about the cache key and the sample inputs\<close>

lemma key_Aa: "getModerationCacheKey text_Aa = ''moderation_1mo''"
  by (simp add: getModerationCacheKey_def text_Aa_def hash_round_def toString36_def
    digits36.simps digit36_def)

lemma key_BB: "getModerationCacheKey text_BB = ''moderation_1mo''"
  by (simp add: getModerationCacheKey_def text_BB_def hash_round_def toString36_def
    digits36.simps digit36_def)

lemma transform_clean_response: "transform clean_response = Inr clean_result"
  by (simp add: transform_def clean_response_def clean_result_def map_result_def pick_def
      CATEGORIES_def all_categories_def)

lemma transform_partial_response: "transform partial_response = Inr partial_result"
  by (simp add: transform_def partial_response_def partial_result_def map_result_def pick_def
      all_categories_def)

lemma partial_result_decision:
  "analyzeModeration partial_result =
    \<lparr>isAllowed = True, moderationResult = partial_result,
     flaggedCategories = [], confidenceScore = 0.01\<rparr>"
  by (simp add: partial_result_def eval_defs)

subsection \<open>Auxiliary facts about the construction of \<open>moderationResult\<close>\<close>

lemma property_pick: "c \<in> set CATEGORIES \<Longrightarrow> property (pick obj) c = obj c"
  by (auto simp: CATEGORIES_def property_def entries_def pick_def)

lemma map_result_unreadable: "\<not> readable_result r \<Longrightarrow> map_result r = Inl TypeError"
  by (auto simp: readable_result_def map_result_def Option.is_none_def split: option.splits)

lemma map_result_readable:
  assumes "readable_result r"
  shows "\<exists>u. map_result r = Inr u \<and>
           (flagged u = Some True \<longleftrightarrow> raw_unit_flagged r) \<and>
           (\<forall>c \<in> set CATEGORIES. violates u c \<longleftrightarrow> raw_violation r c)"
  using assms
  by (auto simp: readable_result_def map_result_def Option.is_none_def violates_def
      raw_violation_def raw_unit_flagged_def property_pick split: option.splits)

lemma map_results_unreadable:
  "\<not> list_all readable_result rs \<Longrightarrow> map_results rs = Inl TypeError"
proof (induction rs)
  case Nil
  then show ?case by simp
next
  case (Cons r rs)
  show ?case
  proof (cases "readable_result r")
    case True
    with Cons.prems have "\<not> list_all readable_result rs" by simp
    then have rest: "map_results rs = Inl TypeError" by (rule Cons.IH)
    from map_result_readable [OF True] obtain u where "map_result r = Inr u" by blast
    with rest show ?thesis by simp
  next
    case False
    then show ?thesis by (simp add: map_result_unreadable)
  qed
qed

lemma map_results_readable:
  "list_all readable_result rs \<Longrightarrow>
    \<exists>us. map_results rs = Inr us \<and>
      ((\<exists>u \<in> set us. flagged u = Some True) \<longleftrightarrow> (\<exists>r \<in> set rs. raw_unit_flagged r)) \<and>
      (\<forall>c \<in> set CATEGORIES.
         (\<exists>u \<in> set us. violates u c) \<longleftrightarrow> (\<exists>r \<in> set rs. raw_violation r c))"
proof (induction rs)
  case Nil
  show ?case by simp
next
  case (Cons r rs)
  from Cons.prems have "readable_result r" and "list_all readable_result rs" by simp_all
  from map_result_readable [OF this(1)] obtain u where
    u: "map_result r = Inr u" "flagged u = Some True \<longleftrightarrow> raw_unit_flagged r"
       "\<forall>c \<in> set CATEGORIES. violates u c \<longleftrightarrow> raw_violation r c"
    by blast
  from Cons.IH [OF \<open>list_all readable_result rs\<close>] obtain us where
    us: "map_results rs = Inr us"
        "(\<exists>u \<in> set us. flagged u = Some True) \<longleftrightarrow> (\<exists>r \<in> set rs. raw_unit_flagged r)"
        "\<forall>c \<in> set CATEGORIES.
           (\<exists>u \<in> set us. violates u c) \<longleftrightarrow> (\<exists>r \<in> set rs. raw_violation r c)"
    by blast
  have "map_results (r # rs) = Inr (u # us)"
    by (simp add: u(1) us(1))
  moreover have "(\<exists>v \<in> set (u # us). flagged v = Some True) \<longleftrightarrow>
      (\<exists>q \<in> set (r # rs). raw_unit_flagged q)"
    using u(2) us(2) by simp
  moreover have "\<forall>c \<in> set CATEGORIES. (\<exists>v \<in> set (u # us). violates v c) \<longleftrightarrow>
      (\<exists>q \<in> set (r # rs). raw_violation q c)"
    using u(3) us(3) by simp
  ultimately show ?case by blast
qed

subsection \<open>Auxiliary facts about the formatter\<close>

lemma displayNames_truthy: "map_of displayNames c = Some name \<Longrightarrow> name \<noteq> []"
  by (auto simp: displayNames_def split: if_splits)

lemma getCategoryDisplayName_regular:
  assumes "c \<notin> set (map fst Object_prototype)"
  shows "getCategoryDisplayName c = JString (display_name c)"
proof (cases "map_of displayNames c")
  case None
  moreover have "map_of Object_prototype c = None"
    using assms by (simp add: map_of_eq_None_iff)
  ultimately show ?thesis
    by (simp add: getCategoryDisplayName_def display_name_def)
next
  case (Some name)
  then show ?thesis
    using displayNames_truthy [OF Some]
    by (simp add: getCategoryDisplayName_def display_name_def)
qed

lemma join_strings: "join '', '' (map JString xs) = comma_joined xs"
  by (induction xs rule: comma_joined.induct) auto

lemma display_names:
  "map display_name CATEGORIES =
    [''Hate Speech'', ''Threatening Hate Speech'', ''Harassment'', ''Threatening Harassment'',
     ''Self-Harm'', ''Self-Harm Intent'', ''Self-Harm Instructions'', ''Sexual Content'',
     ''Sexual Content Involving Minors'', ''Violence'', ''Graphic Violence'']"
  by (simp add: display_name_def displayNames_def CATEGORIES_def)

lemma display_name_unknown: "c \<notin> set CATEGORIES \<Longrightarrow> display_name c = c"
  by (auto simp: display_name_def displayNames_def CATEGORIES_def)

text \<open>
  On every list that holds none of the twelve names that \<open>displayNames\<close> inherits, the
  formatter returns the three messages with the display names of the static table.
\<close>

lemma formatModerationFeedback_regular:
  assumes "set cs \<inter> set (map fst Object_prototype) = {}"
  shows "formatModerationFeedback cs allowed =
    (if allowed then ''Content passed moderation checks.''
     else if cs = [] then ''Content flagged by moderation system.''
     else ''Content flagged for: '' @ comma_joined (map display_name cs) @
          ''. Please revise your post.'')"
proof -
  have eq: "map getCategoryDisplayName cs = map JString (map display_name cs)"
    using assms by (auto intro!: getCategoryDisplayName_regular)
  have "join '', '' (map getCategoryDisplayName cs) = comma_joined (map display_name cs)"
    unfolding eq by (rule join_strings)
  then show ?thesis
    by (simp add: formatModerationFeedback_def)
qed

lemma formatModerationFeedback_examples:
  "formatModerationFeedback [] True = ''Content passed moderation checks.''"
  "formatModerationFeedback [] False = ''Content flagged by moderation system.''"
  "formatModerationFeedback [''hate'', ''harassment''] False =
     ''Content flagged for: Hate Speech, Harassment. Please revise your post.''"
  "formatModerationFeedback [''unknown-category''] False =
     ''Content flagged for: unknown-category. Please revise your post.''"
  "formatModerationFeedback [''''] False = ''Content flagged for: . Please revise your post.''"
  by (simp_all add: formatModerationFeedback_def getCategoryDisplayName_def displayNames_def
      Object_prototype_def)

subsection \<open>The flagged categories\<close>

text \<open>
  C1. For a well-formed result, a category is in \<open>flaggedCategories\<close> exactly when some
  unit has the category's flag true or its score at or above the threshold of its
  class: \<open>0.05\<close> for the four high-sensitivity categories, \<open>0.1\<close> for the other seven,
  a score equal to the threshold counting as a violation. Each such category occurs
  once, and the list is in the order in which the units, and the categories within a
  unit, are visited.
\<close>

theorem flaggedCategories_violations:
  assumes "well_formed r"
  shows "(c \<in> set (flaggedCategories (analyzeModeration r)) \<longleftrightarrow>
           (\<exists>u \<in> set (results r). \<exists>flag score.
              c \<in> set CATEGORIES \<and>
              property (categories u) c = Some flag \<and>
              property (category_scores u) c = Some score \<and>
              (flag \<or> score \<ge> threshold c)))
       \<and> distinct (flaggedCategories (analyzeModeration r))
       \<and> flaggedCategories (analyzeModeration r) =
           first_seen (concat (map (\<lambda>u. filter (violates u) CATEGORIES) (results r)))
       \<and> map threshold CATEGORIES =
           [0.05, 0.05, 0.05, 0.05, 0.1, 0.1, 0.1, 0.1, 0.1, 0.1, 0.1]"
proof -
  let ?d = "analyzeModeration r"
  have order: "flaggedCategories ?d =
      first_seen (concat (map (\<lambda>u. filter (violates u) CATEGORIES) (results r)))"
    by (simp add: analyzeModeration_eq unit_violations_def [abs_def])
  have mem: "c \<in> set (flaggedCategories ?d) \<longleftrightarrow>
      (\<exists>u \<in> set (results r). c \<in> set CATEGORIES \<and> violates u c)"
    by (auto simp: order set_first_seen)
  have "(\<exists>u \<in> set (results r). c \<in> set CATEGORIES \<and> violates u c) \<longleftrightarrow>
        (\<exists>u \<in> set (results r). \<exists>flag score.
              c \<in> set CATEGORIES \<and>
              property (categories u) c = Some flag \<and>
              property (category_scores u) c = Some score \<and>
              (flag \<or> score \<ge> threshold c))"
  proof (intro bex_cong refl)
    fix u assume u: "u \<in> set (results r)"
    show "(c \<in> set CATEGORIES \<and> violates u c) \<longleftrightarrow>
        (\<exists>flag score.
              c \<in> set CATEGORIES \<and>
              property (categories u) c = Some flag \<and>
              property (category_scores u) c = Some score \<and>
              (flag \<or> score \<ge> threshold c))"
    proof (cases "c \<in> set CATEGORIES")
      case True
      from well_formed_property [OF assms u True] obtain flag score where
        "property (categories u) c = Some flag" "property (category_scores u) c = Some score"
        by blast
      with True show ?thesis by (auto simp: violates_def)
    next
      case False
      then show ?thesis by simp
    qed
  qed
  with mem order show ?thesis by (simp add: distinct_first_seen thresholds)
qed

theorem flaggedCategories_violations_witness:
  "well_formed boundary_scores \<and>
   (''hate'' \<in> set (flaggedCategories (analyzeModeration boundary_scores)) \<longleftrightarrow>
           (\<exists>u \<in> set (results boundary_scores). \<exists>flag score.
              ''hate'' \<in> set CATEGORIES \<and>
              property (categories u) ''hate'' = Some flag \<and>
              property (category_scores u) ''hate'' = Some score \<and>
              (flag \<or> score \<ge> threshold ''hate''))) \<and>
   flaggedCategories (analyzeModeration boundary_scores) = [''hate'']"
proof -
  have wf: "well_formed boundary_scores"
    by (rule boundary_scores_well_formed)
  have "flaggedCategories (analyzeModeration boundary_scores) = [''hate'']"
    by (simp add: boundary_scores_decision)
  with wf flaggedCategories_violations [OF wf, of "''hate''"] show ?thesis by blast
qed

subsection \<open>The verdict\<close>

text \<open>
  C3, as the claim states it, fails: a unit whose own \<open>flagged\<close> is true blocks the
  content although no category is flagged, so the decision is a block with an empty
  list.
\<close>

theorem isAllowed_iff_empty_counterexample:
  "well_formed flagged_without_category \<and>
   \<not> (isAllowed (analyzeModeration flagged_without_category) \<longleftrightarrow>
      flaggedCategories (analyzeModeration flagged_without_category) = [])"
  by (simp add: flagged_without_category_def eval_defs)

text \<open>
  C3, amended. For every result, \<open>isAllowed\<close> is true exactly when \<open>flaggedCategories\<close>
  is empty and no unit has its own \<open>flagged\<close> true.
\<close>

theorem isAllowed_iff:
  "isAllowed (analyzeModeration r) \<longleftrightarrow>
     flaggedCategories (analyzeModeration r) = [] \<and>
     (\<forall>u \<in> set (results r). flagged u \<noteq> Some True)"
proof -
  have "first_seen cs = [] \<longleftrightarrow> cs = []" for cs :: "string list"
    by (simp add: first_seen_def)
  then show ?thesis
    by (auto simp: analyzeModeration_eq)
qed

theorem isAllowed_iff_witness:
  "(isAllowed (analyzeModeration boundary_scores) \<longleftrightarrow>
     flaggedCategories (analyzeModeration boundary_scores) = [] \<and>
     (\<forall>u \<in> set (results boundary_scores). flagged u \<noteq> Some True)) \<and>
   \<not> isAllowed (analyzeModeration boundary_scores) \<and>
   flaggedCategories (analyzeModeration boundary_scores) = [''hate''] \<and>
   map flagged (results boundary_scores) = [Some False]"
  using isAllowed_iff [of boundary_scores]
  by (simp add: boundary_scores_decision) (simp add: boundary_scores_def)

subsection \<open>The confidence score\<close>

text \<open>
  C4. For a well-formed result whose scores are probabilities (none is negative),
  \<open>confidenceScore\<close> is the largest score of all categories and units, whichever
  categories are flagged, and \<open>0\<close> when there is no unit.
\<close>

theorem confidenceScore_max:
  assumes "well_formed r" and "\<forall>s \<in> set (all_scores r). 0 \<le> s"
  shows "confidenceScore (analyzeModeration r) =
           (if results r = [] then 0 else Max (set (all_scores r)))"
proof (cases "results r")
  case Nil
  then show ?thesis by (simp add: confidenceScore_eq all_scores_def)
next
  case (Cons u us)
  with assms(1) have "well_formed_unit u" by (simp add: well_formed_def)
  then have ne: "set (all_scores r) \<noteq> {}"
    using Cons well_formed_unit_scores [of u] by (simp add: all_scores_def)
  then obtain s where s: "s \<in> set (all_scores r)" by (cases "all_scores r") auto
  have "Max (insert 0 (set (all_scores r))) = max 0 (Max (set (all_scores r)))"
    using ne by simp
  moreover have "0 \<le> Max (set (all_scores r))"
    using assms(2) s ne by (meson List.finite_set Max_ge order_trans)
  ultimately show ?thesis using Cons by (simp add: confidenceScore_eq)
qed

theorem confidenceScore_max_witness:
  "well_formed boundary_scores \<and> list_all (\<lambda>s. 0 \<le> s) (all_scores boundary_scores) \<and>
   confidenceScore (analyzeModeration boundary_scores) = Max (set (all_scores boundary_scores)) \<and>
   confidenceScore (analyzeModeration boundary_scores) = 0.09 \<and>
   flaggedCategories (analyzeModeration boundary_scores) = [''hate'']"
proof -
  have wf: "well_formed boundary_scores"
    by (rule boundary_scores_well_formed)
  have sc: "all_scores boundary_scores =
      [0.05, 0.001, 0.001, 0.001, 0.001, 0.001, 0.001, 0.001, 0.001, 0.09, 0.001]"
    by (simp add: boundary_scores_def all_scores_def unit_scores_def eval_defs)
  have nonneg: "\<forall>s \<in> set (all_scores boundary_scores). 0 \<le> s"
    by (simp add: sc)
  have "results boundary_scores \<noteq> []"
    by (simp add: boundary_scores_def)
  then show ?thesis
    using wf nonneg confidenceScore_max [OF wf nonneg]
    by (simp add: boundary_scores_decision list_all_iff)
qed

subsection \<open>Failure of the classification\<close>

text \<open>
  C2. When the lookup finds nothing and classification fails outright (the remote call
  is rejected, or an exception is raised while the response is processed),
  \<open>moderateContent\<close> returns the fail-closed decision: \<open>isAllowed\<close> false,
  \<open>flaggedCategories\<close> the single name \<open>error\<close>, \<open>confidenceScore\<close> \<open>1.0\<close>. The function
  has no error result: its whole body is inside \<open>try\<close>.
\<close>

theorem moderateContent_fail_closed:
  assumes "fst (getCachedModeration cache now content) = None"
      and "classification_fails create content"
  shows "fst (moderateContent cache now now' content create) = fail_closed \<and>
         isAllowed fail_closed = False \<and>
         flaggedCategories fail_closed = [''error''] \<and>
         confidenceScore fail_closed = 1.0"
  using assms
  by (auto simp: moderateContent_def classification_fails_def fail_closed_def
      split: prod.splits option.splits sum.splits)

theorem moderateContent_fail_closed_witness:
  "fst (getCachedModeration Map.empty 0 text_Aa) = None \<and>
   classification_fails timeout_service text_Aa \<and>
   fst (moderateContent Map.empty 0 5000 text_Aa timeout_service) = fail_closed \<and>
   isAllowed (fst (moderateContent Map.empty 0 5000 text_Aa timeout_service)) = False \<and>
   flaggedCategories (fst (moderateContent Map.empty 0 5000 text_Aa timeout_service)) =
     [''error''] \<and>
   confidenceScore (fst (moderateContent Map.empty 0 5000 text_Aa timeout_service)) = 1.0"
proof -
  have miss: "fst (getCachedModeration Map.empty 0 text_Aa) = None"
    by (simp add: getCachedModeration_def)
  have fails: "classification_fails timeout_service text_Aa"
    by (simp add: classification_fails_def timeout_service_def)
  show ?thesis
    using miss fails moderateContent_fail_closed [OF miss fails, of 5000] by simp
qed

text \<open>
  C9, as the claim states it, fails: the lookup that precedes the failed classification
  evicts an expired entry stored under the key of the text, so the cache has changed
  when the fail-closed decision is returned.
\<close>

theorem failed_call_changes_cache_counterexample:
  "fst (moderateContent expired_cache 3600000 3600000 text_Aa timeout_service) = fail_closed \<and>
   fst (snd (moderateContent expired_cache 3600000 3600000 text_Aa timeout_service)) \<noteq>
     expired_cache"
proof -
  have "expired_cache \<noteq> Map.empty"
    by (simp add: expired_cache_def)
  then have ne: "Map.empty \<noteq> expired_cache"
    by (rule not_sym)
  have call: "moderateContent expired_cache 3600000 3600000 text_Aa timeout_service =
      (fail_closed, Map.empty, 1)"
    by (simp add: moderateContent_def getCachedModeration_def expired_cache_def
        isCacheValid_def CACHE_TTL_HOURS_def timeout_service_def)
  show ?thesis
    using ne by (simp add: call)
qed

text \<open>
  C9, amended. When classification fails and the fail-closed decision is returned,
  nothing is inserted or overwritten: the cache afterwards is the cache that the
  initial lookup left, which is the cache before the call or, when the entry under the
  key of the text had expired, that cache without this entry. No entry is then stored
  under the key, so the next call with the same text calls the remote service again;
  and no cached result is ever analysed into the fail-closed decision.
\<close>

theorem failed_call_cache:
  assumes "fst (getCachedModeration cache now content) = None"
      and "classification_fails create content"
  shows "(case moderateContent cache now now' content create of
            (d, cache', n) \<Rightarrow>
              d = fail_closed \<and> n = 1 \<and>
              cache' = snd (getCachedModeration cache now content) \<and>
              (cache' = cache \<or>
               (\<exists>e. cache (getModerationCacheKey content) = Some e \<and>
                    3600000 \<le> now - timestamp e \<and>
                    cache' = cache(getModerationCacheKey content := None))) \<and>
              cache' (getModerationCacheKey content) = None \<and>
              (\<forall>later later' create'.
                 snd (snd (moderateContent cache' later later' content create')) = 1))
         \<and> (\<forall>r. analyzeModeration r \<noteq> fail_closed)"
proof -
  obtain cache1 where look: "getCachedModeration cache now content = (None, cache1)"
    using assms(1) by (cases "getCachedModeration cache now content") simp
  have c1: "cache1 (getModerationCacheKey content) = None"
    using look
    by (auto simp: getCachedModeration_def Let_def split: option.splits if_splits)
  have c2: "cache1 = cache \<or>
               (\<exists>e. cache (getModerationCacheKey content) = Some e \<and>
                    3600000 \<le> now - timestamp e \<and>
                    cache1 = cache(getModerationCacheKey content := None))"
    using look
    by (auto simp: getCachedModeration_def isCacheValid_def CACHE_TTL_HOURS_def Let_def
        split: option.splits if_splits)
  have call: "moderateContent cache now now' content create = (fail_closed, cache1, 1)"
    using look assms(2)
    by (auto simp: moderateContent_def classification_fails_def split: sum.splits)
  have again: "snd (snd (moderateContent cache1 later later' content create')) = 1"
    for later later' create'
    using c1
    by (simp add: moderateContent_def getCachedModeration_def split: sum.splits)
  show ?thesis
    using c1 c2 again by (simp add: call look analyzeModeration_not_fail_closed)
qed

theorem failed_call_cache_witness:
  "fst (getCachedModeration expired_cache 3600000 text_Aa) = None \<and>
   classification_fails timeout_service text_Aa \<and>
   moderateContent expired_cache 3600000 3600005 text_Aa timeout_service =
     (fail_closed, expired_cache(getModerationCacheKey text_Aa := None), 1) \<and>
   snd (snd (moderateContent (expired_cache(getModerationCacheKey text_Aa := None))
     3600010 3600015 text_Aa clean_service)) = 1"
proof -
  have miss: "fst (getCachedModeration expired_cache 3600000 text_Aa) = None"
    by (simp add: getCachedModeration_def expired_cache_def isCacheValid_def
        CACHE_TTL_HOURS_def)
  have fails: "classification_fails timeout_service text_Aa"
    by (simp add: classification_fails_def timeout_service_def)
  have look: "snd (getCachedModeration expired_cache 3600000 text_Aa) =
      expired_cache(getModerationCacheKey text_Aa := None)"
    by (simp add: getCachedModeration_def expired_cache_def isCacheValid_def
        CACHE_TTL_HOURS_def)
  show ?thesis
    using miss fails failed_call_cache [OF miss fails, of 3600005]
    by (auto simp: look split: prod.splits)
qed

subsection \<open>The cache\<close>

text \<open>
  C6. A lookup returns the stored result exactly when there is an entry under the key
  of the text whose age is less than one hour (\<open>3600000\<close> milliseconds), and then
  leaves the cache as it is; when the entry is one hour old or older, the lookup
  removes it and returns nothing; when there is no entry, it returns nothing and
  leaves the cache as it is. The lookup is a function of the cache, the clock and the
  text: no remote service takes part.
\<close>

theorem getCachedModeration_lookup:
  "getCachedModeration cache now content =
     (case cache (getModerationCacheKey content) of
        None \<Rightarrow> (None, cache)
      | Some e \<Rightarrow>
          if now - timestamp e < 3600000 then (Some (result e), cache)
          else (None, cache(getModerationCacheKey content := None)))
   \<and> (fst (getCachedModeration cache now content) = Some r \<longleftrightarrow>
        (\<exists>e. cache (getModerationCacheKey content) = Some e \<and>
             now - timestamp e < 3600000 \<and> result e = r))"
  by (auto simp: getCachedModeration_def isCacheValid_def CACHE_TTL_HOURS_def Let_def
      split: option.splits)

theorem getCachedModeration_lookup_witness:
  "getCachedModeration expired_cache 3599999 text_Aa = (Some boundary_scores, expired_cache) \<and>
   getCachedModeration expired_cache 3600000 text_Aa = (None, Map.empty) \<and>
   getCachedModeration Map.empty 0 text_Aa = (None, Map.empty)"
  using getCachedModeration_lookup [of expired_cache 3599999 text_Aa]
    getCachedModeration_lookup [of expired_cache 3600000 text_Aa]
    getCachedModeration_lookup [of Map.empty 0 text_Aa]
  by (simp add: expired_cache_def)

text \<open>
  C5. Two calls of \<open>moderateContent\<close> with the same text, the first finding no live
  entry and classifying successfully, the second looking up the cache less than one
  hour after the first stored its result: the first makes one remote call, the second
  makes none and is served the stored result, both return the same decision, and the
  second leaves the cache as it is. (The key is a function of the text, so the second
  lookup reads the entry that the first call wrote.)
\<close>

theorem cache_idempotence:
  assumes "fst (getCachedModeration cache now1 content) = None"
      and "create1 content MODEL = Inr resp"
      and "transform resp = Inr mr"
      and "now2 - stored1 < 3600000"
  shows "(case moderateContent cache now1 stored1 content create1 of
            (d1, cache1, n1) \<Rightarrow>
              (case moderateContent cache1 now2 stored2 content create2 of
                 (d2, cache2, n2) \<Rightarrow>
                   n1 = 1 \<and> n2 = 0 \<and> d2 = d1 \<and> cache2 = cache1 \<and>
                   fst (getCachedModeration cache1 now2 content) = Some mr))"
  using assms
  by (auto simp: moderateContent_def getCachedModeration_def cacheModeration_def
      isCacheValid_def CACHE_TTL_HOURS_def Let_def
      split: prod.splits option.splits sum.splits if_splits)

theorem cache_idempotence_witness:
  "fst (getCachedModeration Map.empty 0 text_Aa) = None \<and>
   clean_service text_Aa MODEL = Inr clean_response \<and>
   transform clean_response = Inr clean_result \<and>
   (500 :: int) - 120 < 3600000 \<and>
   (case moderateContent Map.empty 0 120 text_Aa clean_service of
            (d1, cache1, n1) \<Rightarrow>
              (case moderateContent cache1 500 620 text_Aa timeout_service of
                 (d2, cache2, n2) \<Rightarrow>
                   n1 = 1 \<and> n2 = 0 \<and> d2 = d1 \<and> cache2 = cache1 \<and>
                   fst (getCachedModeration cache1 500 text_Aa) = Some clean_result))"
proof -
  have miss: "fst (getCachedModeration Map.empty 0 text_Aa) = None"
    by (simp add: getCachedModeration_def)
  have call: "clean_service text_Aa MODEL = Inr clean_response"
    by (simp add: clean_service_def)
  have fresh: "(500 :: int) - 120 < 3600000" by simp
  show ?thesis
    using miss call transform_clean_response fresh
      cache_idempotence [where cache = Map.empty and ?now1.0 = 0 and content = text_Aa
        and ?create1.0 = clean_service and resp = clean_response and mr = clean_result
        and ?now2.0 = 500 and ?stored1.0 = 120 and ?stored2.0 = 620
        and ?create2.0 = timeout_service]
    by simp
qed

text \<open>
  C10. The cache key is not injective: it is \<open>moderation_\<close> followed by a 32-bit hash
  in base 36, and the distinct texts \<open>Aa\<close> and \<open>BB\<close> have the same key. For two texts
  with the same key, a lookup for one, less than one hour after a result was stored
  for the other, returns that result, and \<open>moderateContent\<close> answers with its analysis.
\<close>

theorem cache_key_collision:
  "text_Aa \<noteq> text_BB \<and> getModerationCacheKey text_Aa = getModerationCacheKey text_BB \<and>
   (\<exists>h :: 32 word. getModerationCacheKey a = ''moderation_'' @ toString36 (sint h)) \<and>
   (getModerationCacheKey a = getModerationCacheKey b \<longrightarrow> now - stored < 3600000 \<longrightarrow>
      fst (getCachedModeration (cacheModeration cache stored a r) now b) = Some r \<and>
      fst (moderateContent (cacheModeration cache stored a r) now now' b create) =
        analyzeModeration r)"
proof -
  have "text_Aa \<noteq> text_BB"
    by (simp add: text_Aa_def text_BB_def)
  moreover have "getModerationCacheKey text_Aa = getModerationCacheKey text_BB"
    by (simp add: key_Aa key_BB)
  moreover have "\<exists>h :: 32 word. getModerationCacheKey a = ''moderation_'' @ toString36 (sint h)"
    unfolding getModerationCacheKey_def by blast
  ultimately show ?thesis
    by (simp add: moderateContent_def getCachedModeration_def cacheModeration_def
        isCacheValid_def CACHE_TTL_HOURS_def Let_def)
qed

theorem cache_key_collision_witness:
  "text_Aa \<noteq> text_BB \<and> getModerationCacheKey text_Aa = getModerationCacheKey text_BB \<and>
   (1000 :: int) - 0 < 3600000 \<and>
   fst (getCachedModeration (cacheModeration Map.empty 0 text_Aa boundary_scores) 1000 text_BB)
     = Some boundary_scores \<and>
   fst (moderateContent (cacheModeration Map.empty 0 text_Aa boundary_scores) 1000 1200 text_BB
         timeout_service) = analyzeModeration boundary_scores"
  using cache_key_collision
    [of text_Aa text_BB 1000 0 Map.empty boundary_scores 1200 timeout_service]
  by simp

subsection \<open>Malformed responses\<close>

text \<open>
  C7, as the claim states it, fails: a response whose unit lacks its own flag and ten
  of the eleven categories is not rejected. It is transformed, stored in the cache and
  analysed, and the text is allowed.
\<close>

theorem malformed_response_accepted_counterexample:
  "\<not> well_shaped partial_response \<and>
   transform partial_response = Inr partial_result \<and>
   moderateContent Map.empty 0 120 text_Aa partial_service =
     (analyzeModeration partial_result,
      [getModerationCacheKey text_Aa \<mapsto> \<lparr>result = partial_result, timestamp = 120\<rparr>], 1) \<and>
   isAllowed (analyzeModeration partial_result) \<and>
   analyzeModeration partial_result \<noteq> fail_closed"
proof -
  have "\<not> well_shaped partial_response"
    by (simp add: well_shaped_def well_shaped_result_def partial_response_def)
  moreover have "moderateContent Map.empty 0 120 text_Aa partial_service =
     (analyzeModeration partial_result,
      [getModerationCacheKey text_Aa \<mapsto> \<lparr>result = partial_result, timestamp = 120\<rparr>], 1)"
    by (simp add: moderateContent_def getCachedModeration_def partial_service_def
        transform_partial_response cacheModeration_def)
  moreover have "isAllowed (analyzeModeration partial_result)"
    by (simp add: partial_result_decision)
  ultimately show ?thesis
    by (simp add: transform_partial_response analyzeModeration_not_fail_closed)
qed

text \<open>
  C7, amended. On a cache miss with a response from the remote service: when \<open>results\<close>
  is not an array, or a unit is not an object or lacks its \<open>categories\<close> or its
  \<open>category_scores\<close> object, \<open>moderateContent\<close> returns the fail-closed decision and
  stores nothing. Every other response, whichever flags and scores its units lack, is
  transformed, stored and analysed: a category is flagged exactly when some unit has
  its flag true or its score at or above the threshold, and the text is allowed
  exactly when no unit is flagged as a whole and no category is flagged, a missing
  flag counting as false and a missing score as below the threshold.
\<close>

theorem malformed_response_handling:
  assumes "getCachedModeration cache now content = (None, cache1)"
      and "create content MODEL = Inr resp"
  shows "(\<not> readable resp \<longrightarrow>
            moderateContent cache now now' content create = (fail_closed, cache1, 1)) \<and>
         (readable resp \<longrightarrow>
            (\<exists>rs mr. response_results resp = Some rs \<and> transform resp = Inr mr \<and>
               moderateContent cache now now' content create =
                 (analyzeModeration mr, cacheModeration cache1 now' content mr, 1) \<and>
               (\<forall>c. c \<in> set (flaggedCategories (analyzeModeration mr)) \<longleftrightarrow>
                  c \<in> set CATEGORIES \<and> (\<exists>r \<in> set rs. raw_violation r c)) \<and>
               (isAllowed (analyzeModeration mr) \<longleftrightarrow>
                  \<not> (\<exists>r \<in> set rs. raw_unit_flagged r) \<and>
                  \<not> (\<exists>c \<in> set CATEGORIES. \<exists>r \<in> set rs. raw_violation r c))))"
proof (intro conjI impI)
  assume "\<not> readable resp"
  then have "transform resp = Inl TypeError"
    by (auto simp: readable_def transform_def map_results_unreadable split: option.splits)
  then show "moderateContent cache now now' content create = (fail_closed, cache1, 1)"
    using assms by (simp add: moderateContent_def)
next
  assume "readable resp"
  then obtain rs where rs: "response_results resp = Some rs" "list_all readable_result rs"
    by (auto simp: readable_def split: option.splits)
  from map_results_readable [OF rs(2)] obtain us where
    us: "map_results rs = Inr us"
        "(\<exists>u \<in> set us. flagged u = Some True) \<longleftrightarrow> (\<exists>r \<in> set rs. raw_unit_flagged r)"
        "\<forall>c \<in> set CATEGORIES.
           (\<exists>u \<in> set us. violates u c) \<longleftrightarrow> (\<exists>r \<in> set rs. raw_violation r c)"
    by blast
  define mr where "mr = \<lparr>id' = response_id resp, model = response_model resp, results = us\<rparr>"
  have tr: "transform resp = Inr mr"
    by (simp add: transform_def rs(1) us(1) mr_def)
  have res: "results mr = us" by (simp add: mr_def)
  have call: "moderateContent cache now now' content create =
      (analyzeModeration mr, cacheModeration cache1 now' content mr, 1)"
    using assms tr by (simp add: moderateContent_def)
  have fl: "\<forall>c. c \<in> set (flaggedCategories (analyzeModeration mr)) \<longleftrightarrow>
                  c \<in> set CATEGORIES \<and> (\<exists>r \<in> set rs. raw_violation r c)"
    using us(3) by (auto simp: flagged_iff_violates res)
  have al: "isAllowed (analyzeModeration mr) \<longleftrightarrow>
                  \<not> (\<exists>r \<in> set rs. raw_unit_flagged r) \<and>
                  \<not> (\<exists>c \<in> set CATEGORIES. \<exists>r \<in> set rs. raw_violation r c)"
    using us(2,3) by (simp add: allowed_iff_violates res)
  show "\<exists>rs mr. response_results resp = Some rs \<and> transform resp = Inr mr \<and>
               moderateContent cache now now' content create =
                 (analyzeModeration mr, cacheModeration cache1 now' content mr, 1) \<and>
               (\<forall>c. c \<in> set (flaggedCategories (analyzeModeration mr)) \<longleftrightarrow>
                  c \<in> set CATEGORIES \<and> (\<exists>r \<in> set rs. raw_violation r c)) \<and>
               (isAllowed (analyzeModeration mr) \<longleftrightarrow>
                  \<not> (\<exists>r \<in> set rs. raw_unit_flagged r) \<and>
                  \<not> (\<exists>c \<in> set CATEGORIES. \<exists>r \<in> set rs. raw_violation r c))"
    using rs(1) tr call fl al by blast
qed

theorem malformed_response_handling_witness:
  "getCachedModeration Map.empty 0 text_Aa = (None, Map.empty) \<and>
   unreadable_service text_Aa MODEL = Inr unreadable_response \<and>
   \<not> readable unreadable_response \<and>
   moderateContent Map.empty 0 120 text_Aa unreadable_service = (fail_closed, Map.empty, 1) \<and>
   partial_service text_Aa MODEL = Inr partial_response \<and>
   readable partial_response \<and>
   (\<exists>rs mr. response_results partial_response = Some rs \<and>
      transform partial_response = Inr mr \<and>
      moderateContent Map.empty 0 120 text_Aa partial_service =
        (analyzeModeration mr, cacheModeration Map.empty 120 text_Aa mr, 1) \<and>
      (\<forall>c. c \<in> set (flaggedCategories (analyzeModeration mr)) \<longleftrightarrow>
         c \<in> set CATEGORIES \<and> (\<exists>r \<in> set rs. raw_violation r c)) \<and>
      (isAllowed (analyzeModeration mr) \<longleftrightarrow>
         \<not> (\<exists>r \<in> set rs. raw_unit_flagged r) \<and>
         \<not> (\<exists>c \<in> set CATEGORIES. \<exists>r \<in> set rs. raw_violation r c)))"
proof -
  have miss: "getCachedModeration Map.empty 0 text_Aa = (None, Map.empty)"
    by (simp add: getCachedModeration_def)
  have c1: "unreadable_service text_Aa MODEL = Inr unreadable_response"
    by (simp add: unreadable_service_def)
  have c2: "partial_service text_Aa MODEL = Inr partial_response"
    by (simp add: partial_service_def)
  have r1: "\<not> readable unreadable_response"
    by (simp add: readable_def unreadable_response_def)
  have r2: "readable partial_response"
    by (simp add: readable_def readable_result_def partial_response_def)
  show ?thesis
    using miss c1 c2 r1 r2
      malformed_response_handling [where cache = Map.empty and now = 0 and content = text_Aa
        and ?cache1.0 = Map.empty and create = unreadable_service
        and resp = unreadable_response and now' = 120]
      malformed_response_handling [where cache = Map.empty and now = 0 and content = text_Aa
        and ?cache1.0 = Map.empty and create = partial_service
        and resp = partial_response and now' = 120]
    by simp
qed

subsection \<open>The feedback formatter\<close>

text \<open>
  C8. The formatter is to return the pass message when allowed, the generic message
  when blocked with an empty list, and otherwise the message with the display names
  joined by commas, a string that is not one of the eleven categories passing through
  unchanged. On the list \<open>[constructor]\<close> it does not: \<open>constructor\<close> is no property of
  \<open>displayNames\<close> itself, but \<open>displayNames[category]\<close> finds the property inherited
  from \<open>Object.prototype\<close>, a function, which is truthy, so \<open>|| category\<close> does not
  apply and \<open>join\<close> prints the function.
\<close>

theorem formatModerationFeedback_inherited_key:
  "formatModerationFeedback [''constructor''] False =
     ''Content flagged for: function Object() { [native code] }. Please revise your post.'' \<and>
   formatModerationFeedback [''constructor''] False \<noteq>
     ''Content flagged for: constructor. Please revise your post.'' \<and>
   map_of displayNames ''constructor'' = None"
  by (simp add: formatModerationFeedback_def getCategoryDisplayName_def displayNames_def
      Object_prototype_def)

end
